theory Spec2Isabelle
  imports Main "HOL-Library.Word"
begin

unbundle bit_operations_syntax

section \<open>The alignment record of SeqLib/BamRecord.h\<close>

subsection \<open>Data model\<close>

text \<open>
  Modelled from the spec: the struct declarations \<open>bam1_core_t\<close> and \<open>bam1_t\<close> come from
  htslib's sam.h, which is not among the sources. Section 3 names the fields (flag
  bitmask, reference id and position, mate reference id and position, mapping quality,
  insert size, one variable-length buffer). The widths are those of sam.h: \<open>int32_t\<close>
  for \<open>tid\<close>, \<open>pos\<close>, \<open>l_qseq\<close>, \<open>mtid\<close>, \<open>mpos\<close> and \<open>isize\<close>, as the accessors of
  BamRecord.h return them, and the bit-fields \<open>bin:16\<close>, \<open>qual:8\<close>, \<open>l_qname:8\<close>,
  \<open>flag:16\<close>, \<open>n_cigar:16\<close>; \<open>l_data\<close> and \<open>m_data\<close> are \<open>int\<close>. Signed fields are
  32-bit words read with \<open>sint\<close>.
\<close>

record bam1_core_t =
  tid :: "32 word"
  pos :: "32 word"
  bin :: "16 word"
  qual :: "8 word"
  l_qname :: "8 word"
  flag :: "16 word"
  n_cigar :: "16 word"
  l_qseq :: "32 word"
  mtid :: "32 word"
  mpos :: "32 word"
  isize :: "32 word"

text \<open>
  One tag of the tag store: a 2-character key, a type code and the payload bytes
  (section 4.4).
\<close>

record aux_entry =
  aux_key :: string
  aux_type :: char
  aux_payload :: "8 word list"

text \<open>
  The variable-length buffer \<open>data\<close> holds, in this order, the name, the cigar array, the
  packed bases, the qualities and the tags (section 9, and the sum \<open>RemoveAllTags\<close>
  computes). It is kept as these five typed regions.
\<close>

record bam_data =
  d_qname :: "8 word list"
  d_cigar :: "32 word list"
  d_seq :: "8 word list"
  d_qual :: "8 word list"
  d_aux :: "aux_entry list"

record bam1_t =
  core :: bam1_core_t
  l_data :: "32 word"
  m_data :: "32 word"
  data :: bam_data

text \<open>
  \<open>std::shared_ptr<bam1_t> b\<close>: a record is empty when the pointer is null.
\<close>

type_synonym BamRecord = "bam1_t option"

text \<open>
  What a call can end in other than a value: the dereference of a null \<open>b\<close> by a method
  that does not test it, \<open>assert(false)\<close>, a read outside a string literal, and the
  FormatError of section 7.
\<close>

datatype failure = NullDereference | AssertionFailed | OutOfBounds | FormatError

subsection \<open>Flag bits\<close>

text \<open>
  Modelled from the spec: the \<open>BAM_F*\<close> masks are macros of sam.h. Section 3 lists the
  bits (paired, proper-pair, unmapped, mate-unmapped, reverse, mate-reverse, read-1,
  read-2, secondary, qc-fail, duplicate); their values are those of the SAM format.
\<close>

definition BAM_FPAIRED :: "16 word" where "BAM_FPAIRED = 1"
definition BAM_FPROPER_PAIR :: "16 word" where "BAM_FPROPER_PAIR = 2"
definition BAM_FUNMAP :: "16 word" where "BAM_FUNMAP = 4"
definition BAM_FMUNMAP :: "16 word" where "BAM_FMUNMAP = 8"
definition BAM_FREVERSE :: "16 word" where "BAM_FREVERSE = 16"
definition BAM_FMREVERSE :: "16 word" where "BAM_FMREVERSE = 32"
definition BAM_FREAD1 :: "16 word" where "BAM_FREAD1 = 64"
definition BAM_FREAD2 :: "16 word" where "BAM_FREAD2 = 128"
definition BAM_FSECONDARY :: "16 word" where "BAM_FSECONDARY = 256"
definition BAM_FQCFAIL :: "16 word" where "BAM_FQCFAIL = 512"
definition BAM_FDUP :: "16 word" where "BAM_FDUP = 1024"

definition FRORIENTATION :: int where "FRORIENTATION = 0"
definition FFORIENTATION :: int where "FFORIENTATION = 1"
definition RFORIENTATION :: int where "RFORIENTATION = 2"
definition RRORIENTATION :: int where "RRORIENTATION = 3"
definition UDORIENTATION :: int where "UDORIENTATION = 4"

subsection \<open>Guarded accessors\<close>

definition isEmpty :: "BamRecord \<Rightarrow> bool" where
  "isEmpty r = (r = None)"

definition ReverseFlag :: "BamRecord \<Rightarrow> bool" where
  "ReverseFlag r = (case r of None \<Rightarrow> False
     | Some b \<Rightarrow> flag (core b) AND BAM_FREVERSE \<noteq> 0)"

definition MateReverseFlag :: "BamRecord \<Rightarrow> bool" where
  "MateReverseFlag r = (case r of None \<Rightarrow> False
     | Some b \<Rightarrow> flag (core b) AND BAM_FMREVERSE \<noteq> 0)"

definition DuplicateFlag :: "BamRecord \<Rightarrow> bool" where
  "DuplicateFlag r = (case r of None \<Rightarrow> False
     | Some b \<Rightarrow> flag (core b) AND BAM_FDUP \<noteq> 0)"

definition SecondaryFlag :: "BamRecord \<Rightarrow> bool" where
  "SecondaryFlag r = (case r of None \<Rightarrow> False
     | Some b \<Rightarrow> flag (core b) AND BAM_FSECONDARY \<noteq> 0)"

definition PairedFlag :: "BamRecord \<Rightarrow> bool" where
  "PairedFlag r = (case r of None \<Rightarrow> False
     | Some b \<Rightarrow> flag (core b) AND BAM_FPAIRED \<noteq> 0)"

definition QCFailFlag :: "BamRecord \<Rightarrow> bool" where
  "QCFailFlag r = (case r of None \<Rightarrow> False
     | Some b \<Rightarrow> flag (core b) AND BAM_FQCFAIL \<noteq> 0)"

definition MappedFlag :: "BamRecord \<Rightarrow> bool" where
  "MappedFlag r = (case r of None \<Rightarrow> False
     | Some b \<Rightarrow> flag (core b) AND BAM_FUNMAP = 0)"

definition MateMappedFlag :: "BamRecord \<Rightarrow> bool" where
  "MateMappedFlag r = (case r of None \<Rightarrow> False
     | Some b \<Rightarrow> flag (core b) AND BAM_FMUNMAP = 0)"

definition PairMappedFlag :: "BamRecord \<Rightarrow> bool" where
  "PairMappedFlag r = (case r of None \<Rightarrow> False
     | Some b \<Rightarrow> \<not> (flag (core b) AND BAM_FMUNMAP \<noteq> 0)
               \<and> \<not> (flag (core b) AND BAM_FUNMAP \<noteq> 0)
               \<and> flag (core b) AND BAM_FPAIRED \<noteq> 0)"

definition ProperPair :: "BamRecord \<Rightarrow> bool" where
  "ProperPair r = (case r of None \<Rightarrow> False
     | Some b \<Rightarrow> flag (core b) AND BAM_FPROPER_PAIR \<noteq> 0)"

definition Interchromosomal :: "BamRecord \<Rightarrow> bool" where
  "Interchromosomal r = (case r of None \<Rightarrow> False
     | Some b \<Rightarrow> tid (core b) \<noteq> mtid (core b) \<and> PairMappedFlag r)"

definition Position :: "BamRecord \<Rightarrow> 32 word" where
  "Position r = (case r of None \<Rightarrow> - 1 | Some b \<Rightarrow> pos (core b))"

definition MatePosition :: "BamRecord \<Rightarrow> 32 word" where
  "MatePosition r = (case r of None \<Rightarrow> - 1 | Some b \<Rightarrow> mpos (core b))"

text \<open>
  \<open>bam_endpos\<close> is a function of htslib; \<open>PositionEnd\<close> takes it as a parameter.
\<close>

definition PositionEnd :: "(bam1_t \<Rightarrow> 32 word) \<Rightarrow> BamRecord \<Rightarrow> 32 word" where
  "PositionEnd bam_endpos r = (case r of None \<Rightarrow> - 1 | Some b \<Rightarrow> bam_endpos b)"

definition ChrID :: "BamRecord \<Rightarrow> 32 word" where
  "ChrID r = (case r of None \<Rightarrow> - 1 | Some b \<Rightarrow> tid (core b))"

definition MateChrID :: "BamRecord \<Rightarrow> 32 word" where
  "MateChrID r = (case r of None \<Rightarrow> - 1 | Some b \<Rightarrow> mtid (core b))"

definition MapQuality :: "BamRecord \<Rightarrow> 32 word" where
  "MapQuality r = (case r of None \<Rightarrow> - 1 | Some b \<Rightarrow> ucast (qual (core b)))"

definition CigarSize :: "BamRecord \<Rightarrow> 32 word" where
  "CigarSize r = (case r of None \<Rightarrow> - 1 | Some b \<Rightarrow> ucast (n_cigar (core b)))"

subsection \<open>Orientation\<close>

text \<open>
  \<open>PairOrientation\<close>: the chain of \<open>if\<close>/\<open>else if\<close> in its order, and \<open>assert(false)\<close>
  after the last one. The positions are compared as \<open>int32_t\<close>.
\<close>

definition PairOrientation :: "BamRecord \<Rightarrow> failure + int" where
  "PairOrientation r =
    (if \<not> PairMappedFlag r then Inr UDORIENTATION
     else if (\<not> ReverseFlag r \<and> sint (Position r) \<le> sint (MatePosition r) \<and> MateReverseFlag r)
           \<or> (ReverseFlag r \<and> sint (Position r) \<ge> sint (MatePosition r) \<and> \<not> MateReverseFlag r)
       then Inr FRORIENTATION
     else if \<not> ReverseFlag r \<and> \<not> MateReverseFlag r then Inr FFORIENTATION
     else if ReverseFlag r \<and> MateReverseFlag r then Inr RRORIENTATION
     else if (ReverseFlag r \<and> sint (Position r) < sint (MatePosition r) \<and> \<not> MateReverseFlag r)
           \<or> (\<not> ReverseFlag r \<and> sint (Position r) > sint (MatePosition r) \<and> MateReverseFlag r)
       then Inr RFORIENTATION
     else Inl AssertionFailed)"

text \<open>
  The table of section 4.2, one disjunct per row, in the order of the rows: the inputs
  are PairMapped, own-reverse, mate-reverse, own position and mate position.
\<close>

definition orientation_row :: "bool \<Rightarrow> bool \<Rightarrow> bool \<Rightarrow> int \<Rightarrow> int \<Rightarrow> int \<Rightarrow> bool" where
  "orientation_row pm own mate p mp res =
    ((\<not> pm \<and> res = UDORIENTATION)
     \<or> (pm \<and> \<not> own \<and> mate \<and> p \<le> mp \<and> res = FRORIENTATION)
     \<or> (pm \<and> own \<and> \<not> mate \<and> p \<ge> mp \<and> res = FRORIENTATION)
     \<or> (pm \<and> \<not> own \<and> \<not> mate \<and> res = FFORIENTATION)
     \<or> (pm \<and> own \<and> mate \<and> res = RRORIENTATION)
     \<or> (pm \<and> own \<and> \<not> mate \<and> p < mp \<and> res = RFORIENTATION)
     \<or> (pm \<and> \<not> own \<and> mate \<and> p > mp \<and> res = RFORIENTATION))"

text \<open>
  \<open>ProperOrientation\<close>: the null test, the chromosome test, then the two branches on
  \<open>pos < mpos\<close>, each a conditional expression on the same two flag tests.
\<close>

definition ProperOrientation :: "BamRecord \<Rightarrow> bool" where
  "ProperOrientation r = (case r of None \<Rightarrow> False
     | Some b \<Rightarrow>
        if tid (core b) \<noteq> mtid (core b) then False
        else if sint (pos (core b)) < sint (mpos (core b))
          then (if flag (core b) AND BAM_FREVERSE = 0 \<and> flag (core b) AND BAM_FMREVERSE \<noteq> 0
                then True else False)
          else (if flag (core b) AND BAM_FREVERSE = 0 \<and> flag (core b) AND BAM_FMREVERSE \<noteq> 0
                then False else True))"

subsection \<open>Packed cigar words\<close>

text \<open>
  Modelled from the spec: \<open>bam_cigar_op\<close>, \<open>bam_cigar_oplen\<close>, \<open>bam_cigar_opchr\<close>,
  \<open>bam_cigar_type\<close> and the \<open>BAM_CIGAR_*\<close> constants are macros of sam.h. Sections 3
  and 6: the low 4 bits of the word are the kind code, the high 28 bits the length; the
  kind characters are \<open>M I D N S H P = X B\<close> for the codes 0 to 9; a fixed table gives
  each kind two bits, consumes-query and consumes-reference. The table is the constant
  of sam.h, two bits per code, consumes-query the lower one. A code above 9 has no kind
  character.
\<close>

definition BAM_CIGAR_STR :: string where "BAM_CIGAR_STR = ''MIDNSHP=XB''"
definition BAM_CIGAR_SHIFT :: nat where "BAM_CIGAR_SHIFT = 4"
definition BAM_CIGAR_MASK :: "32 word" where "BAM_CIGAR_MASK = 0xf"
definition BAM_CIGAR_TYPE :: "32 word" where "BAM_CIGAR_TYPE = 0x3C1A7"

definition bam_cigar_op :: "32 word \<Rightarrow> 32 word" where
  "bam_cigar_op c = c AND BAM_CIGAR_MASK"

definition bam_cigar_oplen :: "32 word \<Rightarrow> 32 word" where
  "bam_cigar_oplen c = drop_bit BAM_CIGAR_SHIFT c"

definition bam_cigar_opchr :: "32 word \<Rightarrow> char option" where
  "bam_cigar_opchr c =
     (if unat (bam_cigar_op c) < length BAM_CIGAR_STR
      then Some (BAM_CIGAR_STR ! unat (bam_cigar_op c)) else None)"

definition bam_cigar_type :: "32 word \<Rightarrow> 32 word" where
  "bam_cigar_type o' = drop_bit (unat (push_bit 1 o' :: 32 word)) BAM_CIGAR_TYPE AND 3"

text \<open>
  \<open>class CigarField\<close>: one private member \<open>data\<close>, set by the constructor from the raw
  word; the accessors of lines 62 to 80.
\<close>

datatype CigarField = CigarField (raw: "32 word")

definition CigarField_Type :: "CigarField \<Rightarrow> char option" where
  "CigarField_Type f = bam_cigar_opchr (raw f)"

definition CigarField_RawType :: "CigarField \<Rightarrow> 8 word" where
  "CigarField_RawType f = ucast (bam_cigar_op (raw f))"

definition CigarField_Length :: "CigarField \<Rightarrow> 32 word" where
  "CigarField_Length f = bam_cigar_oplen (raw f)"

definition CigarField_ConsumesReference :: "CigarField \<Rightarrow> bool" where
  "CigarField_ConsumesReference f = (bam_cigar_type (bam_cigar_op (raw f)) AND 2 \<noteq> 0)"

definition CigarField_ConsumesQuery :: "CigarField \<Rightarrow> bool" where
  "CigarField_ConsumesQuery f = (bam_cigar_type (bam_cigar_op (raw f)) AND 1 \<noteq> 0)"

text \<open>\<open>class Cigar\<close>: a vector of fields, grown by \<open>add\<close>.\<close>

type_synonym Cigar = "CigarField list"

definition add :: "Cigar \<Rightarrow> CigarField \<Rightarrow> Cigar" where
  "add m_data' c = m_data' @ [c]"

subsection \<open>Position and clip arithmetic\<close>

text \<open>
  \<open>bam_get_cigar(b)\<close> points at the cigar array inside the buffer; the loops below read
  its elements \<open>c[0]\<close> to \<open>c[n_cigar - 1]\<close>.
\<close>

definition bam_get_cigar :: "bam1_t \<Rightarrow> 32 word list" where
  "bam_get_cigar b = take (unat (n_cigar (core b))) (d_cigar (data b))"

definition GetCigar :: "BamRecord \<Rightarrow> failure + Cigar" where
  "GetCigar r = (case r of None \<Rightarrow> Inl NullDereference
     | Some b \<Rightarrow> Inr (foldl add [] (map CigarField (bam_get_cigar b))))"

text \<open>
  The loop shared by the four alignment-position methods: \<open>p\<close> is an \<open>int32_t\<close>, grows by
  the length of each leading \<open>S\<close> or \<open>H\<close> operation and the loop breaks at the first other
  one. The two methods that count down from \<open>n_cigar - 1\<close> run it on the reversed array.
\<close>

fun clip_scan :: "32 word list \<Rightarrow> 32 word \<Rightarrow> 32 word" where
  "clip_scan [] p = p"
| "clip_scan (c # cs) p =
     (if bam_cigar_opchr c = Some CHR ''S'' \<or> bam_cigar_opchr c = Some CHR ''H''
      then clip_scan cs (p + bam_cigar_oplen c) else p)"

text \<open>The loops of \<open>NumSoftClip\<close>, \<open>NumHardClip\<close> and \<open>NumClip\<close>: no break.\<close>

fun soft_loop :: "32 word list \<Rightarrow> 32 word \<Rightarrow> 32 word" where
  "soft_loop [] p = p"
| "soft_loop (c # cs) p =
     soft_loop cs (if bam_cigar_opchr c = Some CHR ''S'' then p + bam_cigar_oplen c else p)"

fun hard_loop :: "32 word list \<Rightarrow> 32 word \<Rightarrow> 32 word" where
  "hard_loop [] p = p"
| "hard_loop (c # cs) p =
     hard_loop cs (if bam_cigar_opchr c = Some CHR ''H'' then p + bam_cigar_oplen c else p)"

fun clip_loop :: "32 word list \<Rightarrow> 32 word \<Rightarrow> 32 word" where
  "clip_loop [] p = p"
| "clip_loop (c # cs) p =
     clip_loop cs (if bam_cigar_opchr c = Some CHR ''S'' \<or> bam_cigar_opchr c = Some CHR ''H''
                   then p + bam_cigar_oplen c else p)"

text \<open>
  The methods from here on dereference \<open>b\<close> without testing it: on an empty record the
  model returns \<open>NullDereference\<close>.
\<close>

definition Length :: "BamRecord \<Rightarrow> failure + 32 word" where
  "Length r = (case r of None \<Rightarrow> Inl NullDereference | Some b \<Rightarrow> Inr (l_qseq (core b)))"

definition AlignmentPositionReverse :: "BamRecord \<Rightarrow> failure + 32 word" where
  "AlignmentPositionReverse r = (case r of None \<Rightarrow> Inl NullDereference
     | Some b \<Rightarrow> Inr (clip_scan (rev (bam_get_cigar b)) 0))"

definition AlignmentEndPositionReverse :: "BamRecord \<Rightarrow> failure + 32 word" where
  "AlignmentEndPositionReverse r = (case r of None \<Rightarrow> Inl NullDereference
     | Some b \<Rightarrow> Inr (l_qseq (core b) - clip_scan (bam_get_cigar b) 0))"

definition AlignmentPosition :: "BamRecord \<Rightarrow> failure + 32 word" where
  "AlignmentPosition r = (case r of None \<Rightarrow> Inl NullDereference
     | Some b \<Rightarrow> Inr (clip_scan (bam_get_cigar b) 0))"

definition AlignmentEndPosition :: "BamRecord \<Rightarrow> failure + 32 word" where
  "AlignmentEndPosition r = (case r of None \<Rightarrow> Inl NullDereference
     | Some b \<Rightarrow> Inr (l_qseq (core b) - clip_scan (rev (bam_get_cigar b)) 0))"

definition NumSoftClip :: "BamRecord \<Rightarrow> failure + 32 word" where
  "NumSoftClip r = (case r of None \<Rightarrow> Inl NullDereference
     | Some b \<Rightarrow> Inr (soft_loop (bam_get_cigar b) 0))"

definition NumHardClip :: "BamRecord \<Rightarrow> failure + 32 word" where
  "NumHardClip r = (case r of None \<Rightarrow> Inl NullDereference
     | Some b \<Rightarrow> Inr (hard_loop (bam_get_cigar b) 0))"

definition NumClip :: "BamRecord \<Rightarrow> failure + 32 word" where
  "NumClip r = (case r of None \<Rightarrow> Inl NullDereference
     | Some b \<Rightarrow> Inr (clip_loop (bam_get_cigar b) 0))"

text \<open>The clip kinds of section 4.3, for the statements below.\<close>

definition is_clip :: "32 word \<Rightarrow> bool" where
  "is_clip c = (bam_cigar_opchr c = Some CHR ''S'' \<or> bam_cigar_opchr c = Some CHR ''H'')"

subsection \<open>Printing a cigar\<close>

text \<open>\<open>operator<<\<close> of a stream on a \<open>uint32_t\<close>: the decimal digits, no padding.\<close>

definition digit_char :: "nat \<Rightarrow> char" where
  "digit_char d = ''0123456789'' ! d"

function dec :: "nat \<Rightarrow> string" where
  "dec n = (if n < 10 then [digit_char n] else dec (n div 10) @ [digit_char (n mod 10)])"
  by pat_completeness auto
termination
  by (relation "measure (\<lambda>n. n)") auto

declare dec.simps [simp del]

text \<open>
  The loop of \<open>CigarString\<close>: each word appends its length and the character of the
  literal \<open>"MIDNSHP=XB"\<close> at index \<open>c[k] & BAM_CIGAR_MASK\<close>. The literal has eleven
  bytes, the last one the terminating NUL; an index above 10 reads outside it.
\<close>

fun cigar_loop :: "32 word list \<Rightarrow> string \<Rightarrow> failure + string" where
  "cigar_loop [] cig = Inr cig"
| "cigar_loop (c # cs) cig =
     (if unat (c AND BAM_CIGAR_MASK) < length (''MIDNSHP=XB'' @ [CHR 0x00])
      then cigar_loop cs (cig @ dec (unat (bam_cigar_oplen c))
                              @ [(''MIDNSHP=XB'' @ [CHR 0x00]) ! unat (c AND BAM_CIGAR_MASK)])
      else Inl OutOfBounds)"

definition CigarString :: "BamRecord \<Rightarrow> failure + string" where
  "CigarString r = (case r of None \<Rightarrow> Inl NullDereference
     | Some b \<Rightarrow> cigar_loop (bam_get_cigar b) [])"

subsection \<open>Parsing a cigar\<close>

text \<open>The separators of line 26.\<close>

definition cigar_delimiters :: string where "cigar_delimiters = ''MIDNSHPX''"

text \<open>
  Modelled from the spec: the constructor \<open>CigarField(char t, uint32_t l)\<close> is declared
  at line 56 and defined outside the sources. Section 3: the kind code comes from a
  fixed 9-entry table (section 6 gives its order, \<open>M I D N S H P = X\<close> for 0 to 8) and
  sits in the low 4 bits, the length in the high 28 bits. A character outside the table
  is the unrecognized character of section 4.1.
\<close>

definition kind_table :: string where "kind_table = ''MIDNSHP=X''"

definition kind_code :: "char \<Rightarrow> 32 word option" where
  "kind_code t = (if t \<in> set kind_table
                  then Some (of_nat (length (takeWhile (\<lambda>x. x \<noteq> t) kind_table))) else None)"

definition CigarField_of :: "char \<Rightarrow> 32 word \<Rightarrow> failure + CigarField" where
  "CigarField_of t l = (case kind_code t of None \<Rightarrow> Inl FormatError
     | Some op \<Rightarrow> Inr (CigarField (push_bit 4 l OR op)))"

text \<open>
  Modelled from the spec: \<open>cigarFromString\<close> is declared at line 148 and defined outside
  the sources. Section 4.1: the parser walks digit runs, each followed by one recognized
  kind character, and fails with a FormatError on an unrecognized character or on a
  digit run with no kind character after it. The recognized characters are the
  separators of line 26. The spec names no result for a kind character that no digit
  precedes: the model fails there too. \<open>run\<close> is the value of the digits read since the
  last kind character, \<open>None\<close> when there is none.
\<close>

definition is_digit :: "char \<Rightarrow> bool" where
  "is_digit c = (48 \<le> (of_char c :: nat) \<and> (of_char c :: nat) \<le> 57)"

definition digit_value :: "char \<Rightarrow> nat" where
  "digit_value c = of_char c - 48"

fun cigar_parse :: "string \<Rightarrow> nat option \<Rightarrow> Cigar \<Rightarrow> failure + Cigar" where
  "cigar_parse [] None tc = Inr tc"
| "cigar_parse [] (Some n) tc = Inl FormatError"
| "cigar_parse (c # cs) run tc =
     (if is_digit c
      then cigar_parse cs (Some (10 * (case run of None \<Rightarrow> 0 | Some n \<Rightarrow> n) + digit_value c)) tc
      else if c \<in> set cigar_delimiters
      then (case run of None \<Rightarrow> Inl FormatError
            | Some n \<Rightarrow> (case CigarField_of c (of_nat n) of Inl e \<Rightarrow> Inl e
                         | Inr f \<Rightarrow> cigar_parse cs None (add tc f)))
      else Inl FormatError)"

definition cigarFromString :: "string \<Rightarrow> failure + Cigar" where
  "cigarFromString cig = cigar_parse cig None []"

subsection \<open>Tag store\<close>

text \<open>
  Modelled from the spec: \<open>bam_aux_get\<close>, \<open>bam_aux_append\<close> and \<open>bam_aux2i\<close> are
  functions of htslib. Section 4.4: the tags are an ordered, append-only list of
  (2-character key, type code, payload) entries in the same buffer; a lookup returns the
  first entry with the key in a forward scan; an append adds one entry at the end, and
  the buffer grows by the key, the type code and the payload. An entry of type \<open>i\<close> holds
  the four bytes of an \<open>int32_t\<close>, low byte first, as \<open>AddIntTag\<close> hands them over; the
  spec does not say how an entry of another type reads as an integer, and the model
  reads it as 0. The capacity \<open>m_data\<close> follows the length when it is smaller.
\<close>

definition bam_aux_get :: "bam1_t \<Rightarrow> string \<Rightarrow> aux_entry option" where
  "bam_aux_get b tag = find (\<lambda>e. aux_key e = take 2 tag) (d_aux (data b))"

definition bam_aux_append :: "bam1_t \<Rightarrow> string \<Rightarrow> char \<Rightarrow> nat \<Rightarrow> 8 word list \<Rightarrow> bam1_t" where
  "bam_aux_append b tag type len bytes =
     (let l = l_data b + 3 + of_nat len
      in b\<lparr>l_data := l,
           m_data := (if sint (m_data b) < sint l then l else m_data b),
           data := (data b)\<lparr>d_aux := d_aux (data b)
              @ [\<lparr>aux_key = take 2 tag, aux_type = type, aux_payload = take len bytes\<rparr>]\<rparr>\<rparr>)"

fun le_word :: "8 word list \<Rightarrow> 32 word" where
  "le_word [] = 0"
| "le_word (x # xs) = ucast x OR push_bit 8 (le_word xs)"

definition bam_aux2i :: "aux_entry \<Rightarrow> 32 word" where
  "bam_aux2i e =
     (if aux_type e = CHR ''i'' then le_word (take 4 (aux_payload e)) else 0)"

text \<open>\<open>(uint8_t*)&val\<close>: the four bytes of the \<open>int32_t\<close>, low byte first.\<close>

definition int32_bytes :: "32 word \<Rightarrow> 8 word list" where
  "int32_bytes v = [ucast v, ucast (drop_bit 8 v), ucast (drop_bit 16 v), ucast (drop_bit 24 v)]"

definition GetIntTag :: "BamRecord \<Rightarrow> string \<Rightarrow> failure + 32 word" where
  "GetIntTag r tag = (case r of None \<Rightarrow> Inl NullDereference
     | Some b \<Rightarrow> (case bam_aux_get b tag of None \<Rightarrow> Inr 0 | Some p \<Rightarrow> Inr (bam_aux2i p)))"

definition AddIntTag :: "BamRecord \<Rightarrow> string \<Rightarrow> 32 word \<Rightarrow> failure + BamRecord" where
  "AddIntTag r tag val = (case r of None \<Rightarrow> Inl NullDereference
     | Some b \<Rightarrow> Inr (Some (bam_aux_append b tag CHR ''i'' 4 (int32_bytes val))))"

subsection \<open>Removing the tags\<close>

text \<open>
  The bytes each element of the buffer takes: one per name, base-pair and quality byte,
  four per cigar word, and key, type code and payload for a tag.
\<close>

definition entry_size :: "aux_entry \<Rightarrow> nat" where
  "entry_size e = 2 + 1 + length (aux_payload e)"

definition data_size :: "bam_data \<Rightarrow> nat" where
  "data_size d = length (d_qname d) + 4 * length (d_cigar d) + length (d_seq d)
               + length (d_qual d) + sum_list (map entry_size (d_aux d))"

text \<open>
  \<open>realloc(data, n)\<close> keeps the first \<open>n\<close> bytes of the buffer: on the typed regions, the
  elements that lie wholly inside them. A request beyond the end adds bytes that hold
  no element.
\<close>

fun take_entries :: "nat \<Rightarrow> aux_entry list \<Rightarrow> aux_entry list" where
  "take_entries n [] = []"
| "take_entries n (e # es) =
     (if entry_size e \<le> n then e # take_entries (n - entry_size e) es else [])"

definition realloc :: "bam_data \<Rightarrow> nat \<Rightarrow> bam_data" where
  "realloc d n =
     (let n1 = n - length (d_qname d);
          n2 = n1 - 4 * length (d_cigar d);
          n3 = n2 - length (d_seq d);
          n4 = n3 - length (d_qual d)
      in \<lparr>d_qname = take n (d_qname d), d_cigar = take (n1 div 4) (d_cigar d),
          d_seq = take n2 (d_seq d), d_qual = take n3 (d_qual d),
          d_aux = take_entries n4 (d_aux d)\<rparr>)"

text \<open>
  \<open>RemoveAllTags\<close>: the sum is computed on \<open>int\<close> (the bit-fields \<open>n_cigar\<close> and
  \<open>l_qname\<close> promote to it, \<open>>>\<close> on it is arithmetic), converted to the 64-bit
  \<open>size_t keep\<close>, and stored back into the \<open>int\<close> fields \<open>l_data\<close> and \<open>m_data\<close>.
\<close>

definition RemoveAllTags :: "BamRecord \<Rightarrow> failure + BamRecord" where
  "RemoveAllTags r = (case r of None \<Rightarrow> Inl NullDereference
     | Some b \<Rightarrow>
        let keep = (scast (push_bit 2 (ucast (n_cigar (core b))) + ucast (l_qname (core b))
                          + signed_drop_bit 1 (l_qseq (core b) + 1) + l_qseq (core b) :: 32 word)
                    :: 64 word)
        in Inr (Some (b\<lparr>data := realloc (data b) (unat keep),
                        l_data := ucast keep, m_data := ucast keep\<rparr>)))"

text \<open>
  The size section 4.4 gives for the buffer without tags: 4 bytes per cigar operation,
  the name, the bases packed two per byte, one quality byte per base.
\<close>

definition core_size :: "bam1_core_t \<Rightarrow> nat" where
  "core_size c = 4 * unat (n_cigar c) + unat (l_qname c) + (unat (l_qseq c) + 1) div 2
               + unat (l_qseq c)"

text \<open>
  A buffer that holds what its core fields announce: the regions have the announced
  numbers of elements and \<open>l_data\<close> is the size of the whole, which an \<open>int\<close> holds.
\<close>

definition well_formed :: "bam1_t \<Rightarrow> bool" where
  "well_formed b =
     (length (d_qname (data b)) = unat (l_qname (core b))
      \<and> length (d_cigar (data b)) = unat (n_cigar (core b))
      \<and> length (d_seq (data b)) = (unat (l_qseq (core b)) + 1) div 2
      \<and> length (d_qual (data b)) = unat (l_qseq (core b))
      \<and> unat (l_data b) = data_size (data b)
      \<and> data_size (data b) < 2 ^ 31)"

subsection \<open>Example records\<close>

text \<open>
  A paired read on the forward strand at position 50 whose mate lies on the reverse
  strand at position 100 of the same chromosome.
\<close>

definition fr_pair :: bam1_t where
  "fr_pair = \<lparr>core = \<lparr>tid = 0, pos = 50, bin = 0, qual = 60, l_qname = 0, flag = 33,
                         n_cigar = 0, l_qseq = 0, mtid = 0, mpos = 100, isize = 0\<rparr>,
               l_data = 0, m_data = 0,
               data = \<lparr>d_qname = [], d_cigar = [], d_seq = [], d_qual = [], d_aux = []\<rparr>\<rparr>"

text \<open>
  A paired read at position 100 whose mate lies at position 50 of the same chromosome,
  both on the forward strand.
\<close>

definition ff_pair :: bam1_t where
  "ff_pair = \<lparr>core = \<lparr>tid = 0, pos = 100, bin = 0, qual = 60, l_qname = 0, flag = 1,
                         n_cigar = 0, l_qseq = 0, mtid = 0, mpos = 50, isize = 0\<rparr>,
               l_data = 0, m_data = 0,
               data = \<lparr>d_qname = [], d_cigar = [], d_seq = [], d_qual = [], d_aux = []\<rparr>\<rparr>"

text \<open>
  A read of 100 bases named \<open>read\<close> with the cigar 10S80M10S and two tags,
  \<open>NM:i:1\<close> and \<open>RG:Z:g1\<close>.
\<close>

definition clipped_read :: bam1_t where
  "clipped_read = \<lparr>core = \<lparr>tid = 0, pos = 1000, bin = 0, qual = 60, l_qname = 5, flag = 0,
                         n_cigar = 3, l_qseq = 100, mtid = - 1, mpos = - 1, isize = 0\<rparr>,
               l_data = 180, m_data = 256,
               data = \<lparr>d_qname = [0x72, 0x65, 0x61, 0x64, 0],
                       d_cigar = [0xA4, 0x500, 0xA4],
                       d_seq = replicate 50 0x11, d_qual = replicate 100 30,
                       d_aux = [\<lparr>aux_key = ''NM'', aux_type = CHR ''i'', aux_payload = [1, 0, 0, 0]\<rparr>,
                                \<lparr>aux_key = ''RG'', aux_type = CHR ''Z'',
                                 aux_payload = [0x67, 0x31, 0]\<rparr>]\<rparr>\<rparr>"

text \<open>
  A read of 100 bases with the cigar 10S40M5S45M7H: a soft clip inside the alignment
  and a hard clip at the end.
\<close>

definition interior_clips :: bam1_t where
  "interior_clips = \<lparr>core = \<lparr>tid = 0, pos = 1000, bin = 0, qual = 60, l_qname = 0, flag = 0,
                         n_cigar = 5, l_qseq = 100, mtid = - 1, mpos = - 1, isize = 0\<rparr>,
               l_data = 170, m_data = 170,
               data = \<lparr>d_qname = [],
                       d_cigar = [0xA4, 0x280, 0x54, 0x2D0, 0x75],
                       d_seq = replicate 50 0x11, d_qual = replicate 100 30, d_aux = []\<rparr>\<rparr>"

text \<open>A read of 50 bases with the cigar array 35M, 10I, 5M and no tag.\<close>

definition parsed_read :: bam1_t where
  "parsed_read = \<lparr>core = \<lparr>tid = 0, pos = 1000, bin = 0, qual = 60, l_qname = 0, flag = 0,
                         n_cigar = 3, l_qseq = 50, mtid = - 1, mpos = - 1, isize = 0\<rparr>,
               l_data = 87, m_data = 87,
               data = \<lparr>d_qname = [],
                       d_cigar = [0x230, 0xA1, 0x50],
                       d_seq = replicate 25 0x11, d_qual = replicate 50 30, d_aux = []\<rparr>\<rparr>"

section \<open>Theorems\<close>

lemmas BAM_F_defs =
  BAM_FPAIRED_def BAM_FPROPER_PAIR_def BAM_FUNMAP_def BAM_FMUNMAP_def BAM_FREVERSE_def
  BAM_FMREVERSE_def BAM_FREAD1_def BAM_FREAD2_def BAM_FSECONDARY_def BAM_FQCFAIL_def
  BAM_FDUP_def

lemmas ORIENTATION_defs =
  FRORIENTATION_def FFORIENTATION_def RFORIENTATION_def RRORIENTATION_def UDORIENTATION_def

lemmas cigar_defs =
  BAM_CIGAR_MASK_def BAM_CIGAR_SHIFT_def BAM_CIGAR_STR_def BAM_CIGAR_TYPE_def
  bam_cigar_op_def bam_cigar_oplen_def bam_cigar_opchr_def bam_cigar_type_def

lemmas flag_accessor_defs =
  PairMappedFlag_def ReverseFlag_def MateReverseFlag_def Position_def MatePosition_def

text \<open>
  C10: on an empty record every guarded flag accessor returns false, and Position,
  MatePosition, PositionEnd, ChrID, MateChrID, MapQuality and CigarSize return -1.
\<close>

theorem empty_record_defaults:
  assumes "isEmpty r"
  shows "\<not> ReverseFlag r \<and> \<not> MateReverseFlag r \<and> \<not> DuplicateFlag r \<and> \<not> SecondaryFlag r
       \<and> \<not> PairedFlag r \<and> \<not> QCFailFlag r \<and> \<not> MappedFlag r \<and> \<not> MateMappedFlag r
       \<and> \<not> PairMappedFlag r \<and> \<not> ProperPair r \<and> \<not> Interchromosomal r
       \<and> sint (Position r) = - 1 \<and> sint (MatePosition r) = - 1
       \<and> sint (PositionEnd bam_endpos r) = - 1 \<and> sint (ChrID r) = - 1
       \<and> sint (MateChrID r) = - 1 \<and> sint (MapQuality r) = - 1 \<and> sint (CigarSize r) = - 1"
  using assms
  by (simp add: isEmpty_def ReverseFlag_def MateReverseFlag_def DuplicateFlag_def
      SecondaryFlag_def PairedFlag_def QCFailFlag_def MappedFlag_def MateMappedFlag_def
      PairMappedFlag_def ProperPair_def Interchromosomal_def Position_def MatePosition_def
      PositionEnd_def ChrID_def MateChrID_def MapQuality_def CigarSize_def)

theorem empty_record_defaults_witness:
  "isEmpty None \<and> \<not> ReverseFlag None \<and> \<not> PairMappedFlag None \<and> \<not> Interchromosomal None
   \<and> sint (Position None) = - 1 \<and> sint (PositionEnd (\<lambda>b. 0) None) = - 1
   \<and> sint (CigarSize None) = - 1"
proof -
  have e: "isEmpty None" by (simp add: isEmpty_def)
  show ?thesis using e empty_record_defaults [OF e, of "\<lambda>b. 0"] by simp
qed

subsection \<open>Orientation\<close>

text \<open>
  C1: for a record with PairMapped true, \<open>PairOrientation\<close> returns a value (the
  assertion at its end is not reached), the value is one of FR, FF, RF and RR and not
  Undefined, and it is the one result the table of section 4.2 gives for the record's
  own-reverse, mate-reverse, position and mate position.
\<close>

theorem PairOrientation_table:
  assumes "PairMappedFlag r"
  shows "\<exists>v. PairOrientation r = Inr v
       \<and> v \<in> {FRORIENTATION, FFORIENTATION, RFORIENTATION, RRORIENTATION}
       \<and> v \<noteq> UDORIENTATION
       \<and> (\<forall>res. orientation_row True (ReverseFlag r) (MateReverseFlag r)
                  (sint (Position r)) (sint (MatePosition r)) res \<longleftrightarrow> res = v)"
  using assms
  by (auto simp add: PairOrientation_def orientation_row_def ORIENTATION_defs)

theorem PairOrientation_table_witness:
  "PairMappedFlag (Some fr_pair) \<and> PairOrientation (Some fr_pair) = Inr FRORIENTATION"
proof -
  have h: "PairMappedFlag (Some fr_pair)"
    by (simp add: PairMappedFlag_def fr_pair_def BAM_F_defs)
  have "PairOrientation (Some fr_pair) = Inr FRORIENTATION"
    by (simp add: PairOrientation_def flag_accessor_defs fr_pair_def BAM_F_defs)
  with h PairOrientation_table [OF h] show ?thesis by simp
qed

text \<open>
  C2: \<open>ProperOrientation\<close> on a pair of one chromosome whose two reads are both on the
  forward strand, the record's own read at the higher position. The higher read is not
  on the reverse strand and \<open>PairOrientation\<close> classifies the pair as FF, yet
  \<open>ProperOrientation\<close> returns true.
\<close>

theorem ProperOrientation_forward_pair:
  "ProperOrientation (Some ff_pair) = True
   \<and> PairOrientation (Some ff_pair) = Inr FFORIENTATION
   \<and> \<not> ReverseFlag (Some ff_pair) \<and> \<not> MateReverseFlag (Some ff_pair)
   \<and> ChrID (Some ff_pair) = MateChrID (Some ff_pair)
   \<and> sint (MatePosition (Some ff_pair)) < sint (Position (Some ff_pair))"
  by (simp add: ProperOrientation_def PairOrientation_def flag_accessor_defs ff_pair_def
      BAM_F_defs ChrID_def MateChrID_def)

subsection \<open>Clips\<close>

lemma clip_scan_acc:
  "clip_scan cs p = p + sum_list (map bam_cigar_oplen (takeWhile is_clip cs))"
  by (induction cs arbitrary: p) (simp_all add: is_clip_def)

lemma soft_loop_acc:
  "soft_loop cs p
   = p + sum_list (map bam_cigar_oplen (filter (\<lambda>c. bam_cigar_opchr c = Some CHR ''S'') cs))"
  by (induction cs arbitrary: p) simp_all

lemma hard_loop_acc:
  "hard_loop cs p
   = p + sum_list (map bam_cigar_oplen (filter (\<lambda>c. bam_cigar_opchr c = Some CHR ''H'') cs))"
  by (induction cs arbitrary: p) simp_all

lemma clip_loop_split: "clip_loop cs (p + q) = soft_loop cs p + hard_loop cs q"
proof (induction cs arbitrary: p q)
  case Nil
  show ?case by simp
next
  case (Cons c cs)
  let ?l = "bam_cigar_oplen c"
  consider (soft) "bam_cigar_opchr c = Some CHR ''S''"
    | (hard) "bam_cigar_opchr c = Some CHR ''H''"
    | (other) "bam_cigar_opchr c \<noteq> Some CHR ''S''" "bam_cigar_opchr c \<noteq> Some CHR ''H''"
    by blast
  then show ?case
  proof cases
    case soft
    then show ?thesis using Cons.IH [of "p + ?l" q] by (simp add: ac_simps)
  next
    case hard
    then show ?thesis using Cons.IH [of p "q + ?l"] by (simp add: ac_simps)
  next
    case other
    then show ?thesis using Cons.IH [of p q] by simp
  qed
qed

text \<open>
  C4: \<open>AlignmentPosition\<close> is the sum of the lengths of the clip operations before the
  first operation that is not a clip, \<open>AlignmentEndPosition\<close> the query length minus
  the same sum taken from the end of the cigar. A record of query length 100 whose cigar
  array is 10S, 80M, 10S prints as 10S80M10S and gives 10 and 90.
\<close>

theorem clipped_alignment_positions:
  "AlignmentPosition (Some b)
     = Inr (sum_list (map bam_cigar_oplen (takeWhile is_clip (bam_get_cigar b))))
   \<and> AlignmentEndPosition (Some b)
     = Inr (l_qseq (core b)
            - sum_list (map bam_cigar_oplen (takeWhile is_clip (rev (bam_get_cigar b)))))
   \<and> (l_qseq (core b) = 100 \<and> bam_get_cigar b = [0xA4, 0x500, 0xA4]
      \<longrightarrow> CigarString (Some b) = Inr ''10S80M10S''
        \<and> AlignmentPosition (Some b) = Inr 10 \<and> AlignmentEndPosition (Some b) = Inr 90)"
proof -
  have "clip_scan [0xA4, 0x500, 0xA4] 0 = 10" by (simp add: cigar_defs)
  moreover have "clip_scan (rev [0xA4, 0x500, 0xA4]) 0 = 10" by (simp add: cigar_defs)
  moreover have "cigar_loop [0xA4, 0x500, 0xA4] [] = Inr ''10S80M10S''"
    by (simp add: cigar_defs dec.simps digit_char_def)
  ultimately show ?thesis
    using clip_scan_acc [of "bam_get_cigar b" 0] clip_scan_acc [of "rev (bam_get_cigar b)" 0]
    by (simp add: AlignmentPosition_def AlignmentEndPosition_def CigarString_def)
qed

theorem clipped_alignment_positions_witness:
  "l_qseq (core clipped_read) = 100 \<and> bam_get_cigar clipped_read = [0xA4, 0x500, 0xA4]
   \<and> CigarString (Some clipped_read) = Inr ''10S80M10S''
   \<and> AlignmentPosition (Some clipped_read) = Inr 10
   \<and> AlignmentEndPosition (Some clipped_read) = Inr 90"
proof -
  have c: "bam_get_cigar clipped_read = [0xA4, 0x500, 0xA4]"
    by (simp add: bam_get_cigar_def clipped_read_def)
  have l: "l_qseq (core clipped_read) = 100" by (simp add: clipped_read_def)
  show ?thesis using c l clipped_alignment_positions [of clipped_read] by blast
qed

text \<open>
  C7: on a record that is not empty, \<open>NumSoftClip\<close> is the sum of the lengths of all
  \<open>S\<close> operations of the cigar, wherever they stand, \<open>NumHardClip\<close> that of all \<open>H\<close>
  operations, and \<open>NumClip\<close> is their sum (in \<open>int32_t\<close> arithmetic).
\<close>

theorem clip_counts_add_up:
  assumes "\<not> isEmpty r"
  shows "\<exists>b s h. r = Some b \<and> NumSoftClip r = Inr s \<and> NumHardClip r = Inr h
       \<and> NumClip r = Inr (s + h)
       \<and> s = sum_list (map bam_cigar_oplen
                (filter (\<lambda>c. bam_cigar_opchr c = Some CHR ''S'') (bam_get_cigar b)))
       \<and> h = sum_list (map bam_cigar_oplen
                (filter (\<lambda>c. bam_cigar_opchr c = Some CHR ''H'') (bam_get_cigar b)))"
proof -
  from assms obtain b where b: "r = Some b" by (auto simp add: isEmpty_def)
  have "clip_loop (bam_get_cigar b) (0 + 0)
        = soft_loop (bam_get_cigar b) 0 + hard_loop (bam_get_cigar b) 0"
    by (rule clip_loop_split)
  then show ?thesis
    using soft_loop_acc [of "bam_get_cigar b" 0] hard_loop_acc [of "bam_get_cigar b" 0]
    by (simp add: b NumSoftClip_def NumHardClip_def NumClip_def)
qed

theorem clip_counts_add_up_witness:
  "\<not> isEmpty (Some interior_clips) \<and> NumSoftClip (Some interior_clips) = Inr 15
   \<and> NumHardClip (Some interior_clips) = Inr 7 \<and> NumClip (Some interior_clips) = Inr 22"
proof -
  have h: "\<not> isEmpty (Some interior_clips)" by (simp add: isEmpty_def)
  have s: "NumSoftClip (Some interior_clips) = Inr 15"
    by (simp add: NumSoftClip_def bam_get_cigar_def interior_clips_def cigar_defs)
  have "NumHardClip (Some interior_clips) = Inr 7"
    by (simp add: NumHardClip_def bam_get_cigar_def interior_clips_def cigar_defs)
  with h s clip_counts_add_up [OF h] show ?thesis by auto
qed

text \<open>
  C9: on a record that is not empty, \<open>AlignmentPositionReverse\<close> plus
  \<open>AlignmentEndPosition\<close> is \<open>Length\<close>, and so is \<open>AlignmentPosition\<close> plus
  \<open>AlignmentEndPositionReverse\<close>: each end position is the query length minus the
  start position scanned from the same end (in \<open>int32_t\<close> arithmetic).
\<close>

theorem end_positions_complement:
  assumes "\<not> isEmpty r"
  shows "\<exists>n p e pr er. Length r = Inr n \<and> AlignmentPosition r = Inr p
       \<and> AlignmentEndPosition r = Inr e \<and> AlignmentPositionReverse r = Inr pr
       \<and> AlignmentEndPositionReverse r = Inr er
       \<and> pr + e = n \<and> p + er = n \<and> e = n - pr \<and> er = n - p"
proof -
  from assms obtain b where b: "r = Some b" by (auto simp add: isEmpty_def)
  show ?thesis
    by (simp add: b Length_def AlignmentPosition_def AlignmentEndPosition_def
        AlignmentPositionReverse_def AlignmentEndPositionReverse_def)
qed

theorem end_positions_complement_witness:
  "\<not> isEmpty (Some interior_clips) \<and> Length (Some interior_clips) = Inr 100
   \<and> AlignmentPositionReverse (Some interior_clips) = Inr 7
   \<and> AlignmentEndPosition (Some interior_clips) = Inr 93
   \<and> AlignmentPosition (Some interior_clips) = Inr 10
   \<and> AlignmentEndPositionReverse (Some interior_clips) = Inr 90"
proof -
  have h: "\<not> isEmpty (Some interior_clips)" by (simp add: isEmpty_def)
  have "AlignmentPosition (Some interior_clips) = Inr 10"
    by (simp add: AlignmentPosition_def bam_get_cigar_def interior_clips_def cigar_defs)
  moreover have "AlignmentPositionReverse (Some interior_clips) = Inr 7"
    by (simp add: AlignmentPositionReverse_def bam_get_cigar_def interior_clips_def cigar_defs)
  moreover have "Length (Some interior_clips) = Inr 100"
    by (simp add: Length_def interior_clips_def)
  ultimately show ?thesis using h end_positions_complement [OF h] by auto
qed

subsection \<open>Packed cigar words\<close>

lemma nibble_cases:
  fixes k :: "32 word"
  assumes "unat k < 16"
  shows "k = 0 \<or> k = 1 \<or> k = 2 \<or> k = 3 \<or> k = 4 \<or> k = 5 \<or> k = 6 \<or> k = 7 \<or> k = 8
       \<or> k = 9 \<or> k = 10 \<or> k = 11 \<or> k = 12 \<or> k = 13 \<or> k = 14 \<or> k = 15"
proof -
  have "unat k = 0 \<or> unat k = 1 \<or> unat k = 2 \<or> unat k = 3 \<or> unat k = 4 \<or> unat k = 5
      \<or> unat k = 6 \<or> unat k = 7 \<or> unat k = 8 \<or> unat k = 9 \<or> unat k = 10 \<or> unat k = 11
      \<or> unat k = 12 \<or> unat k = 13 \<or> unat k = 14 \<or> unat k = 15"
    using assms by arith
  then show ?thesis by (simp add: word_unat_eq_iff)
qed

lemma unat_low_nibble: "unat (w AND (15::32 word)) = unat w mod 16"
proof -
  have "w AND 15 = take_bit 4 w" by (simp add: take_bit_eq_mask mask_eq_exp_minus_1)
  then show ?thesis by (simp add: unsigned_take_bit_eq take_bit_eq_mod unat_mod)
qed

lemma bam_cigar_op_cases:
  "bam_cigar_op w \<in> {0, 1, 2, 3, 4, 5, 6, 7, 8, 9, 10, 11, 12, 13, 14, 15}"
proof -
  have "unat (bam_cigar_op w) < 16" by (simp add: bam_cigar_op_def BAM_CIGAR_MASK_def unat_low_nibble)
  from nibble_cases [OF this] show ?thesis by blast
qed

lemma RawType_low_bits: "unat (CigarField_RawType (CigarField w)) = unat w mod 16"
proof -
  have "unat (ucast (w AND 15) :: 8 word) = take_bit 8 (unat (w AND 15))"
    by (simp only: unsigned_ucast_eq) simp
  also have "\<dots> = unat (w AND 15)"
    by (simp add: take_bit_eq_mod unat_low_nibble)
  finally show ?thesis
    by (simp add: CigarField_RawType_def bam_cigar_op_def BAM_CIGAR_MASK_def unat_low_nibble)
qed

lemma Length_high_bits: "unat (CigarField_Length (CigarField w)) = unat w div 16"
  by (simp add: CigarField_Length_def bam_cigar_oplen_def BAM_CIGAR_SHIFT_def
      unat_drop_bit_eq drop_bit_eq_div unat_div)

lemma ConsumesReference_kinds:
  "CigarField_ConsumesReference (CigarField w) \<longleftrightarrow> bam_cigar_op w \<in> {0, 2, 3, 7, 8}"
  using bam_cigar_op_cases [of w]
  by (auto simp add: CigarField_ConsumesReference_def bam_cigar_type_def BAM_CIGAR_TYPE_def)

lemma ConsumesQuery_kinds:
  "CigarField_ConsumesQuery (CigarField w) \<longleftrightarrow> bam_cigar_op w \<in> {0, 1, 4, 7, 8}"
  using bam_cigar_op_cases [of w]
  by (auto simp add: CigarField_ConsumesQuery_def bam_cigar_type_def BAM_CIGAR_TYPE_def)

text \<open>
  C8: for every 32-bit word, \<open>RawType\<close> of the field made from it is its low 4 bits and
  \<open>Length\<close> its high 28 bits; \<open>ConsumesReference\<close> holds exactly for the codes 0, 2,
  3, 7 and 8, the kinds \<open>M D N = X\<close> (Match, Deletion, RefSkip, SeqMatch, SeqMismatch),
  and \<open>ConsumesQuery\<close> exactly for the codes 0, 1, 4, 7 and 8, the kinds \<open>M I S = X\<close>
  (Match, Insertion, SoftClip, SeqMatch, SeqMismatch).
\<close>

theorem CigarField_accessors:
  "unat (CigarField_RawType (CigarField w)) = unat w mod 16
   \<and> unat (CigarField_Length (CigarField w)) = unat w div 16
   \<and> (CigarField_ConsumesReference (CigarField w)
        \<longleftrightarrow> unat (CigarField_RawType (CigarField w)) \<in> {0, 2, 3, 7, 8})
   \<and> (CigarField_ConsumesReference (CigarField w)
        \<longleftrightarrow> CigarField_Type (CigarField w) \<in> Some ` set ''MDN=X'')
   \<and> (CigarField_ConsumesQuery (CigarField w)
        \<longleftrightarrow> unat (CigarField_RawType (CigarField w)) \<in> {0, 1, 4, 7, 8})
   \<and> (CigarField_ConsumesQuery (CigarField w)
        \<longleftrightarrow> CigarField_Type (CigarField w) \<in> Some ` set ''MIS=X'')"
proof -
  have r: "unat (CigarField_RawType (CigarField w)) = unat (bam_cigar_op w)"
    by (simp add: RawType_low_bits bam_cigar_op_def BAM_CIGAR_MASK_def unat_low_nibble)
  have t: "CigarField_Type (CigarField w) = bam_cigar_opchr w" by (simp add: CigarField_Type_def)
  have c1: "CigarField_ConsumesReference (CigarField w)
        \<longleftrightarrow> unat (bam_cigar_op w) \<in> {0, 2, 3, 7, 8}"
    unfolding ConsumesReference_kinds using bam_cigar_op_cases [of w] by auto
  have c2: "CigarField_ConsumesReference (CigarField w)
        \<longleftrightarrow> bam_cigar_opchr w \<in> Some ` set ''MDN=X''"
    unfolding ConsumesReference_kinds using bam_cigar_op_cases [of w]
    by (auto simp add: bam_cigar_opchr_def BAM_CIGAR_STR_def)
  have c3: "CigarField_ConsumesQuery (CigarField w)
        \<longleftrightarrow> unat (bam_cigar_op w) \<in> {0, 1, 4, 7, 8}"
    unfolding ConsumesQuery_kinds using bam_cigar_op_cases [of w] by auto
  have c4: "CigarField_ConsumesQuery (CigarField w)
        \<longleftrightarrow> bam_cigar_opchr w \<in> Some ` set ''MIS=X''"
    unfolding ConsumesQuery_kinds using bam_cigar_op_cases [of w]
    by (auto simp add: bam_cigar_opchr_def BAM_CIGAR_STR_def)
  show ?thesis unfolding r t using RawType_low_bits [of w] Length_high_bits c1 c2 c3 c4 r by simp
qed

subsection \<open>Cigar text\<close>

lemmas parse_defs = cigarFromString_def is_digit_def digit_value_def cigar_delimiters_def
  CigarField_of_def kind_code_def kind_table_def add_def

lemma literal_nth:
  "k < 10 \<Longrightarrow> (''MIDNSHP=XB'' @ [CHR 0x00]) ! k = ''MIDNSHP=XB'' ! k"
  using nth_append [of "''MIDNSHP=XB''" "[CHR 0x00]" k] by simp

lemma single_op_text:
  assumes "unat (bam_cigar_op c) < 10"
  shows "cigar_loop [c] []
         = Inr (dec (unat (bam_cigar_oplen c)) @ [''MIDNSHP=XB'' ! unat (bam_cigar_op c)])"
  using assms literal_nth [of "unat (c AND BAM_CIGAR_MASK)"]
  by (simp add: bam_cigar_op_def)

text \<open>
  C5: \<open>cigarFromString\<close> reads \<open>35M10I5M\<close> as the three fields 35M, 10I, 5M, and
  \<open>CigarString\<close> of a record that holds the raw words of the parsed cigar prints
  \<open>35M10I5M\<close> again. The words with the codes 0 to 9 and length 0 print as \<open>0M\<close>,
  \<open>0I\<close>, \<open>0D\<close>, \<open>0N\<close>, \<open>0S\<close>, \<open>0H\<close>, \<open>0P\<close>, \<open>0=\<close>, \<open>0X\<close>, \<open>0B\<close>, in this
  order, and every word with a code below 10 prints as its length in decimal followed
  by the character of \<open>MIDNSHP=XB\<close> at its code.
\<close>

theorem cigar_text_roundtrip:
  "cigarFromString ''35M10I5M'' = Inr [CigarField 0x230, CigarField 0xA1, CigarField 0x50]
   \<and> (\<forall>cig b. cigarFromString ''35M10I5M'' = Inr cig \<and> bam_get_cigar b = map raw cig
        \<longrightarrow> CigarString (Some b) = Inr ''35M10I5M'')
   \<and> map (\<lambda>k. cigar_loop [of_nat k] []) [0..<10] = map (\<lambda>c. Inr [CHR ''0'', c]) ''MIDNSHP=XB''
   \<and> (\<forall>c. unat (bam_cigar_op c) < 10
        \<longrightarrow> cigar_loop [c] []
            = Inr (dec (unat (bam_cigar_oplen c)) @ [''MIDNSHP=XB'' ! unat (bam_cigar_op c)]))"
proof -
  have p: "cigarFromString ''35M10I5M'' = Inr [CigarField 0x230, CigarField 0xA1, CigarField 0x50]"
    by (simp add: parse_defs)
  have t: "cigar_loop [0x230, 0xA1, 0x50] [] = Inr ''35M10I5M''"
    by (simp add: cigar_defs dec.simps digit_char_def)
  have a: "map (\<lambda>k. cigar_loop [of_nat k] []) [0..<10] = map (\<lambda>c. Inr [CHR ''0'', c]) ''MIDNSHP=XB''"
    by (simp add: upt_rec cigar_defs dec.simps digit_char_def)
  have g: "\<forall>c. unat (bam_cigar_op c) < 10
        \<longrightarrow> cigar_loop [c] []
            = Inr (dec (unat (bam_cigar_oplen c)) @ [''MIDNSHP=XB'' ! unat (bam_cigar_op c)])"
    using single_op_text by blast
  show ?thesis using p t a g by (simp add: CigarString_def)
qed

theorem cigar_text_roundtrip_witness:
  "cigarFromString ''35M10I5M'' = Inr [CigarField 0x230, CigarField 0xA1, CigarField 0x50]
   \<and> bam_get_cigar parsed_read = map raw [CigarField 0x230, CigarField 0xA1, CigarField 0x50]
   \<and> CigarString (Some parsed_read) = Inr ''35M10I5M''
   \<and> unat (bam_cigar_op 0xA1) < 10 \<and> cigar_loop [0xA1] [] = Inr ''10I''"
proof -
  have c: "bam_get_cigar parsed_read = map raw [CigarField 0x230, CigarField 0xA1, CigarField 0x50]"
    by (simp add: bam_get_cigar_def parsed_read_def)
  have k: "unat (bam_cigar_op 0xA1) < 10" by (simp add: cigar_defs)
  have d: "dec (unat (bam_cigar_oplen 0xA1)) @ [''MIDNSHP=XB'' ! unat (bam_cigar_op 0xA1)] = ''10I''"
    by (simp add: cigar_defs dec.simps digit_char_def)
  from cigar_text_roundtrip have p: "cigarFromString ''35M10I5M'' = Inr [CigarField 0x230, CigarField 0xA1, CigarField 0x50]"
    and r: "\<forall>cig b. cigarFromString ''35M10I5M'' = Inr cig \<and> bam_get_cigar b = map raw cig
        \<longrightarrow> CigarString (Some b) = Inr ''35M10I5M''"
    and g: "\<forall>c. unat (bam_cigar_op c) < 10
        \<longrightarrow> cigar_loop [c] []
            = Inr (dec (unat (bam_cigar_oplen c)) @ [''MIDNSHP=XB'' ! unat (bam_cigar_op c)])"
    by blast+
  from r p c have "CigarString (Some parsed_read) = Inr ''35M10I5M''" by blast
  moreover from g k d have "cigar_loop [0xA1] [] = Inr ''10I''" by metis
  ultimately show ?thesis using p c k by blast
qed

subsection \<open>Tags\<close>

lemma le_word_int32_bytes: "le_word (take 4 (int32_bytes v)) = v"
proof -
  have "(ucast ((ucast v) :: 8 word) :: 32 word) OR push_bit 8 (ucast ((ucast (drop_bit 8 v)) :: 8 word)
     OR push_bit 8 (ucast ((ucast (drop_bit 16 v)) :: 8 word)
     OR push_bit 8 (ucast ((ucast (drop_bit 24 v)) :: 8 word)))) = v"
  proof (rule bit_word_eqI)
    fix n :: nat
    assume "n < LENGTH(32)"
    then have n: "n < 32" by simp
    consider "n < 8" | "8 \<le> n" "n < 16" | "16 \<le> n" "n < 24" | "24 \<le> n" by linarith
    then show "bit (ucast (ucast v :: 8 word) OR push_bit 8 (ucast (ucast (drop_bit 8 v) :: 8 word) OR
             push_bit 8 (ucast (ucast (drop_bit 16 v) :: 8 word) OR
             push_bit 8 (ucast (ucast (drop_bit 24 v) :: 8 word)))) :: 32 word) n = bit v n"
      using n by cases (auto simp add: bit_simps)
  qed
  then show ?thesis by (simp add: int32_bytes_def)
qed

lemma find_append_absent:
  "find P xs = None \<Longrightarrow> P e \<Longrightarrow> find P (xs @ [e]) = Some e"
  by (induction xs) (auto split: if_splits)

lemma find_None_absent: "find P xs = None \<longleftrightarrow> (\<forall>x\<in>set xs. \<not> P x)"
  by (induction xs) auto

text \<open>
  C6: for a 2-character key that no tag of the record has, \<open>GetIntTag\<close> returns 0, and
  after \<open>AddIntTag\<close> with the key and a value \<open>v\<close> it returns \<open>v\<close>. The witness is the
  key \<open>XP\<close> and the value 7 on a record with two other tags.
\<close>

theorem int_tag_roundtrip:
  assumes "length tag = 2" and "tag \<notin> aux_key ` set (d_aux (data b))"
  shows "GetIntTag (Some b) tag = Inr 0
       \<and> (\<exists>r'. AddIntTag (Some b) tag v = Inr r' \<and> GetIntTag r' tag = Inr v)"
proof -
  let ?P = "\<lambda>e. aux_key e = take 2 tag"
  have t: "take 2 tag = tag" using assms(1) by simp
  have none: "find ?P (d_aux (data b)) = None"
    using assms(2) by (auto simp add: find_None_absent t)
  let ?e = "\<lparr>aux_key = take 2 tag, aux_type = CHR ''i'', aux_payload = take 4 (int32_bytes v)\<rparr>"
  have some: "find ?P (d_aux (data b) @ [?e]) = Some ?e"
    by (rule find_append_absent [OF none]) simp
  have "GetIntTag (Some b) tag = Inr 0"
    using none by (simp add: GetIntTag_def bam_aux_get_def)
  moreover have "GetIntTag (Some (bam_aux_append b tag CHR ''i'' 4 (int32_bytes v))) tag = Inr v"
    using some le_word_int32_bytes [of v]
    by (simp add: GetIntTag_def bam_aux_get_def bam_aux_append_def Let_def bam_aux2i_def)
  ultimately show ?thesis by (simp add: AddIntTag_def)
qed

theorem int_tag_roundtrip_witness:
  "length ''XP'' = 2 \<and> ''XP'' \<notin> aux_key ` set (d_aux (data clipped_read))
   \<and> GetIntTag (Some clipped_read) ''XP'' = Inr 0
   \<and> (\<exists>r'. AddIntTag (Some clipped_read) ''XP'' 7 = Inr r' \<and> GetIntTag r' ''XP'' = Inr 7)"
proof -
  have l: "length ''XP'' = 2" by simp
  have a: "''XP'' \<notin> aux_key ` set (d_aux (data clipped_read))"
    by (simp add: clipped_read_def)
  show ?thesis using l a int_tag_roundtrip [OF l a, of 7] by blast
qed

subsection \<open>Removing the tags\<close>

lemma high_bit_clear: fixes w :: "32 word" assumes "unat w < 2 ^ 31" shows "\<not> bit w 31"
proof -
  have "unat (take_bit 31 w) = take_bit 31 (unat w)"
    by (simp only: unsigned_take_bit_eq)
  also have "\<dots> = unat w"
    using assms by (simp only: take_bit_eq_mod) simp
  finally have "take_bit 31 w = w" by (simp add: word_unat_eq_iff)
  then have "bit w 31 = bit (take_bit 31 w) 31" by simp
  then show ?thesis by (simp add: bit_take_bit_iff)
qed

lemma unat_signed_drop_bit_1: fixes w :: "32 word" assumes "unat w < 2 ^ 31"
  shows "unat (signed_drop_bit 1 w) = unat w div 2"
proof -
  have nb: "\<not> bit w 31" by (rule high_bit_clear [OF assms])
  have "signed_drop_bit 1 w = drop_bit 1 w"
  proof (rule bit_word_eqI)
    fix n assume "n < LENGTH(32)"
    then have "n < 32" by simp
    then consider "n < 31" | "n = 31" by linarith
    then show "bit (signed_drop_bit 1 w) n = bit (drop_bit 1 w) n"
    proof cases
      case 1 then show ?thesis by (simp add: bit_simps)
    next
      case 2 
      have "\<not> bit w 32" using bit_imp_le_length [of w 32] by auto
      then show ?thesis using 2 nb by (simp add: bit_simps)
    qed
  qed
  then show ?thesis by (simp add: unat_drop_bit_eq drop_bit_eq_div unat_div)
qed

lemma unat_scast_64: fixes w :: "32 word" assumes "unat w < 2 ^ 31"
  shows "unat (scast w :: 64 word) = unat w"
proof -
  have nb: "\<not> bit w 31" by (rule high_bit_clear [OF assms])
  have "(scast w :: 64 word) = ucast w"
  proof (rule bit_word_eqI)
    fix n assume "n < LENGTH(64)"
    show "bit (scast w :: 64 word) n = bit (ucast w :: 64 word) n"
    proof (cases "n < 31")
      case True
      then show ?thesis by (simp add: bit_simps)
    next
      case False
      then have "min 31 n = 31" by simp
      moreover have "\<not> bit w n" 
      proof (cases "n = 31")
        case True then show ?thesis using nb by simp
      next
        case False
        then have "32 \<le> n" using \<open>\<not> n < 31\<close> by linarith
        then show ?thesis using bit_imp_le_length [of w n] by auto
      qed
      ultimately show ?thesis using nb by (simp add: bit_simps)
    qed
  qed
  moreover have "(2::nat) ^ 31 < 2 ^ 64" by simp
  then have "unat w < 2 ^ 64" using assms by linarith
  ultimately show ?thesis by (simp add: unsigned_ucast_eq take_bit_eq_mod)
qed

lemma ucast_scast_64: fixes w :: "32 word" shows "(ucast (scast w :: 64 word) :: 32 word) = w"
proof (rule bit_word_eqI)
  fix n assume "n < LENGTH(32)"
  then have "n < 32" by simp
  then show "bit (ucast (scast w :: 64 word) :: 32 word) n = bit w n"
    by (auto simp add: bit_simps)
qed

lemma unat_ucast_16_32: fixes n :: "16 word" shows "unat (ucast n :: 32 word) = unat n"
proof -
  have "unat n < 2 ^ 16" using unsigned_less [of n] by simp
  then show ?thesis by (simp add: unsigned_ucast_eq take_bit_eq_mod)
qed

lemma unat_ucast_8_32: fixes n :: "8 word" shows "unat (ucast n :: 32 word) = unat n"
proof -
  have "unat n < 2 ^ 8" using unsigned_less [of n] by simp
  then show ?thesis by (simp add: unsigned_ucast_eq take_bit_eq_mod)
qed

lemma unat_cigar_bytes: fixes n :: "16 word"
  shows "unat (push_bit 2 (ucast n) :: 32 word) = 4 * unat n"
proof -
  have "unat n < 2 ^ 16" using unsigned_less [of n] by simp
  then have "unat (ucast n :: 32 word) * unat (4 :: 32 word) < 2 ^ LENGTH(32)"
    by (simp add: unat_ucast_16_32)
  then have "unat ((ucast n :: 32 word) * 4) = unat (ucast n :: 32 word) * unat (4 :: 32 word)"
    by (simp only: unat_mult_lem)
  then show ?thesis by (simp add: push_bit_eq_mult unat_ucast_16_32)
qed

lemma unat_plus_no_overflow: fixes x y :: "32 word"
  assumes "unat x = a" and "unat y = b" and "a + b < 2 ^ 31"
  shows "unat (x + y) = a + b"
proof -
  have "(2::nat) ^ 31 < 2 ^ 32" by simp
  then have "unat x + unat y < 2 ^ LENGTH(32)" using assms by simp
  then have "unat (x + y) = unat x + unat y" by (rule iffD1 [OF unat_add_lem])
  then show ?thesis using assms(1,2) by simp
qed

lemma keep_no_overflow:
  assumes "core_size c < 2 ^ 31"
  shows "unat (push_bit 2 (ucast (n_cigar c)) + ucast (l_qname c)
               + signed_drop_bit 1 (l_qseq c + 1) + l_qseq c :: 32 word) = core_size c"
proof -
  let ?n = "unat (n_cigar c)" and ?q = "unat (l_qname c)" and ?s = "unat (l_qseq c)"
  have b: "4 * ?n + ?q + (?s + 1) div 2 + ?s < 2 ^ 31" using assms by (simp add: core_size_def)
  have "unat (1 :: 32 word) = 1" by simp
  then have s1: "unat (l_qseq c + 1) = ?s + 1"
    by (rule unat_plus_no_overflow [OF refl]) (use b in simp)
  have "unat (l_qseq c + 1) < 2 ^ 31" unfolding s1 using b by simp
  then have "unat (signed_drop_bit 1 (l_qseq c + 1)) = unat (l_qseq c + 1) div 2"
    by (rule unat_signed_drop_bit_1)
  then have s2: "unat (signed_drop_bit 1 (l_qseq c + 1)) = (?s + 1) div 2"
    unfolding s1 .
  have a1: "unat (push_bit 2 (ucast (n_cigar c)) + ucast (l_qname c) :: 32 word) = 4 * ?n + ?q"
    by (rule unat_plus_no_overflow [OF unat_cigar_bytes unat_ucast_8_32]) (use b in simp)
  have a2: "unat (push_bit 2 (ucast (n_cigar c)) + ucast (l_qname c)
               + signed_drop_bit 1 (l_qseq c + 1) :: 32 word) = 4 * ?n + ?q + (?s + 1) div 2"
    by (rule unat_plus_no_overflow [OF a1 s2]) (use b in simp)
  have a3: "unat (push_bit 2 (ucast (n_cigar c)) + ucast (l_qname c)
               + signed_drop_bit 1 (l_qseq c + 1) + l_qseq c :: 32 word)
            = 4 * ?n + ?q + (?s + 1) div 2 + ?s"
    by (rule unat_plus_no_overflow [OF a2 refl]) (use b in simp)
  then show ?thesis by (simp only: core_size_def)
qed

lemma take_entries_0: "take_entries 0 es = []"
  by (cases es) (simp_all add: entry_size_def)

lemma realloc_core_size:
  assumes "length (d_qname d) = unat (l_qname c)" and "length (d_cigar d) = unat (n_cigar c)"
    and "length (d_seq d) = (unat (l_qseq c) + 1) div 2" and "length (d_qual d) = unat (l_qseq c)"
  shows "realloc d (core_size c) = d\<lparr>d_aux := []\<rparr>"
  using assms by (simp add: realloc_def core_size_def Let_def take_entries_0)

lemma RemoveAllTags_result:
  assumes "core_size (core b) < 2 ^ 31"
  shows "\<exists>k. unat k = core_size (core b)
       \<and> RemoveAllTags (Some b)
         = Inr (Some (b\<lparr>data := realloc (data b) (core_size (core b)), l_data := k, m_data := k\<rparr>))"
proof -
  let ?k = "push_bit 2 (ucast (n_cigar (core b))) + ucast (l_qname (core b))
            + signed_drop_bit 1 (l_qseq (core b) + 1) + l_qseq (core b) :: 32 word"
  have k: "unat ?k = core_size (core b)" by (rule keep_no_overflow [OF assms])
  then have "unat ?k < 2 ^ 31" using assms by simp
  then have "unat (scast ?k :: 64 word) = unat ?k" by (rule unat_scast_64)
  then have u: "unat (scast ?k :: 64 word) = core_size (core b)" using k by simp
  have v: "(ucast (scast ?k :: 64 word) :: 32 word) = ?k" by (rule ucast_scast_64)
  have e: "RemoveAllTags (Some b)
         = Inr (Some (b\<lparr>data := realloc (data b) (unat (scast ?k :: 64 word)),
                          l_data := ucast (scast ?k :: 64 word),
                          m_data := ucast (scast ?k :: 64 word)\<rparr>))"
    by (simp add: RemoveAllTags_def Let_def)
  have "RemoveAllTags (Some b)
         = Inr (Some (b\<lparr>data := realloc (data b) (core_size (core b)), l_data := ?k, m_data := ?k\<rparr>))"
    unfolding e u v by (rule refl)
  with k show ?thesis by blast
qed

text \<open>
  C3: on a record whose buffer holds what its core fields announce, \<open>RemoveAllTags\<close>
  leaves a buffer length of 4 bytes per cigar operation, plus the name length, plus
  half the query length rounded up, plus the query length; the capacity equals it, the
  buffer that remains has exactly this size and no tag, and the core fields are
  unchanged. The same length and buffer result whatever tags, length and capacity the
  record had before.
\<close>

theorem RemoveAllTags_length:
  assumes "well_formed b"
  shows "\<exists>b'. RemoveAllTags (Some b) = Inr (Some b')
       \<and> unat (l_data b') = 4 * unat (n_cigar (core b)) + unat (l_qname (core b))
                             + (unat (l_qseq (core b)) + 1) div 2 + unat (l_qseq (core b))
       \<and> m_data b' = l_data b'
       \<and> data_size (data b') = unat (l_data b')
       \<and> d_aux (data b') = [] \<and> core b' = core b
       \<and> (\<forall>aux l m. \<exists>b''.
            RemoveAllTags (Some (b\<lparr>l_data := l, m_data := m, data := (data b)\<lparr>d_aux := aux\<rparr>\<rparr>))
              = Inr (Some b'')
            \<and> l_data b'' = l_data b' \<and> data b'' = data b')"
proof -
  from assms have len: "length (d_qname (data b)) = unat (l_qname (core b))"
      "length (d_cigar (data b)) = unat (n_cigar (core b))"
      "length (d_seq (data b)) = (unat (l_qseq (core b)) + 1) div 2"
      "length (d_qual (data b)) = unat (l_qseq (core b))"
    and fits: "data_size (data b) < 2 ^ 31"
    by (simp_all add: well_formed_def)
  have "core_size (core b) \<le> data_size (data b)"
    using len by (simp add: core_size_def data_size_def)
  with fits have small: "core_size (core b) < 2 ^ 31" by simp
  from RemoveAllTags_result [OF small] obtain k where k: "unat k = core_size (core b)"
    and r: "RemoveAllTags (Some b)
         = Inr (Some (b\<lparr>data := realloc (data b) (core_size (core b)), l_data := k, m_data := k\<rparr>))"
    by blast
  have d: "realloc (data b) (core_size (core b)) = (data b)\<lparr>d_aux := []\<rparr>"
    by (rule realloc_core_size [OF len])
  have sz: "data_size ((data b)\<lparr>d_aux := []\<rparr>) = core_size (core b)"
    using len by (simp add: core_size_def data_size_def)
  have other: "\<exists>b''. RemoveAllTags (Some (b\<lparr>l_data := l, m_data := m, data := (data b)\<lparr>d_aux := aux\<rparr>\<rparr>))
              = Inr (Some b'') \<and> l_data b'' = k \<and> data b'' = (data b)\<lparr>d_aux := []\<rparr>" for aux l m
  proof -
    let ?c = "b\<lparr>l_data := l, m_data := m, data := (data b)\<lparr>d_aux := aux\<rparr>\<rparr>"
    have c: "core ?c = core b" by simp
    from RemoveAllTags_result [of ?c] small obtain k' where k': "unat k' = core_size (core b)"
      and r': "RemoveAllTags (Some ?c)
         = Inr (Some (?c\<lparr>data := realloc (data ?c) (core_size (core b)), l_data := k', m_data := k'\<rparr>))"
      unfolding c by blast
    have "k' = k" using k k' by (simp add: word_unat_eq_iff)
    moreover have "realloc (data ?c) (core_size (core b)) = (data ?c)\<lparr>d_aux := []\<rparr>"
      by (rule realloc_core_size) (simp_all add: len)
    ultimately show ?thesis using r' by simp
  qed
  show ?thesis using r k d sz other by (simp add: core_size_def)
qed

theorem RemoveAllTags_length_witness:
  "well_formed clipped_read \<and> length (d_aux (data clipped_read)) = 2
   \<and> unat (l_data clipped_read) = 180
   \<and> (\<exists>b'. RemoveAllTags (Some clipped_read) = Inr (Some b') \<and> unat (l_data b') = 167
         \<and> data_size (data b') = 167 \<and> d_aux (data b') = [])"
proof -
  have w: "well_formed clipped_read"
    by (simp add: well_formed_def clipped_read_def data_size_def entry_size_def)
  have a: "length (d_aux (data clipped_read)) = 2 \<and> unat (l_data clipped_read) = 180"
    by (simp add: clipped_read_def)
  have c: "4 * unat (n_cigar (core clipped_read)) + unat (l_qname (core clipped_read))
           + (unat (l_qseq (core clipped_read)) + 1) div 2 + unat (l_qseq (core clipped_read)) = 167"
    by (simp add: clipped_read_def)
  from RemoveAllTags_length [OF w] obtain b' where
    "RemoveAllTags (Some clipped_read) = Inr (Some b')"
    "unat (l_data b') = 4 * unat (n_cigar (core clipped_read)) + unat (l_qname (core clipped_read))
           + (unat (l_qseq (core clipped_read)) + 1) div 2 + unat (l_qseq (core clipped_read))"
    "data_size (data b') = unat (l_data b')" "d_aux (data b') = []"
    by blast
  then show ?thesis using w a c by auto
qed

end
